theory Spec2Isabelle
  imports Complex_Main
begin

section \<open>Platform values\<close>

text \<open>
  The two stream transformers of \<^verbatim>\<open>utils/stream.js\<close> consume \<^verbatim>\<open>Uint8Array\<close> chunks and
  enqueue \<^verbatim>\<open>Uint8Array\<close> chunks. A byte array is a list of 8-bit characters; a JavaScript
  string is a list of UTF-16 code units. \<open>ascii\<close> turns an ASCII literal of the
  source into a JavaScript string.
\<close>

type_synonym bytes = "char list"
type_synonym jsstring = "nat list"

definition ascii :: "string \<Rightarrow> jsstring" where
  "ascii s = map of_char s"

text \<open>
  A JavaScript number is a double. The transformers never compute with numbers: they
  test them for truthiness and hand them to \<^verbatim>\<open>JSON.stringify\<close>, so a number is kept as
  its value, with the non-finite doubles apart (negative zero is identified with zero,
  both are falsy).
\<close>

datatype jsnumber = Finite real | PosInfinity | NegInfinity | NaN

datatype jsvalue =
    JUndefined
  | JNull
  | JBoolean bool
  | JNumber jsnumber
  | JString jsstring
  | JArray "jsvalue list"
  | JObject "(jsstring \<times> jsvalue) list"

datatype exn = SyntaxError | TypeError

text \<open>
  \<^verbatim>\<open>JSON.parse\<close> and \<^verbatim>\<open>JSON.stringify\<close> belong to the JavaScript engine, not to the
  repository, and their number conversions are floating point. They are parameters of the
  model: \<open>JSON_parse\<close> returns the parsed value or the \<^verbatim>\<open>SyntaxError\<close> it throws (an object
  lists its own properties, each key once), \<open>JSON_stringify\<close> returns the text of a value.
\<close>

record platform =
  JSON_parse :: "jsstring \<Rightarrow> exn + jsvalue"
  JSON_stringify :: "jsvalue \<Rightarrow> jsstring"

subsection \<open>String operations\<close>

definition startsWith :: "jsstring \<Rightarrow> jsstring \<Rightarrow> bool" where
  "startsWith s p = (take (length p) s = p)"

text \<open>\<^verbatim>\<open>s.indexOf(p)\<close>: the first position where \<open>p\<close> occurs; \<open>None\<close> stands for \<^verbatim>\<open>-1\<close>.\<close>

fun indexOf :: "jsstring \<Rightarrow> jsstring \<Rightarrow> nat option" where
  "indexOf [] p = (if p = [] then Some 0 else None)"
| "indexOf (x # xs) p =
     (if startsWith (x # xs) p then Some 0 else map_option Suc (indexOf xs p))"

text \<open>The code units \<^verbatim>\<open>String.prototype.trim\<close> strips: white space and line terminators.\<close>

definition isWhiteSpace :: "nat \<Rightarrow> bool" where
  "isWhiteSpace u =
     (u = 0x09 \<or> u = 0x0A \<or> u = 0x0B \<or> u = 0x0C \<or> u = 0x0D \<or> u = 0x20 \<or> u = 0xA0
      \<or> u = 0x1680 \<or> (0x2000 \<le> u \<and> u \<le> 0x200A) \<or> u = 0x2028 \<or> u = 0x2029
      \<or> u = 0x202F \<or> u = 0x205F \<or> u = 0x3000 \<or> u = 0xFEFF)"

definition trim :: "jsstring \<Rightarrow> jsstring" where
  "trim s = rev (dropWhile isWhiteSpace (rev (dropWhile isWhiteSpace s)))"

subsection \<open>TextDecoder and TextEncoder\<close>

text \<open>
  \<^verbatim>\<open>new TextDecoder()\<close> is the UTF-8 decoder of the Encoding standard, not fatal, not
  ignoring the byte order mark. \<open>utf8_decoder\<close> is its handler run over the bytes of one
  call: the code point being built, the bytes seen and needed, the bounds of the next
  continuation byte. A malformed sequence yields U+FFFD and the offending byte is read
  again; at the end of the bytes an unfinished sequence yields U+FFFD.
\<close>

function utf8_decoder :: "nat \<Rightarrow> nat \<Rightarrow> nat \<Rightarrow> nat \<Rightarrow> nat \<Rightarrow> bytes \<Rightarrow> nat list" where
  "utf8_decoder cp seen needed lower upper [] = (if needed \<noteq> 0 then [0xFFFD] else [])"
| "utf8_decoder cp seen needed lower upper (b # bs) =
     (let byte = (of_char b :: nat) in
      if needed = 0 then
        (if byte \<le> 0x7F then byte # utf8_decoder 0 0 0 0x80 0xBF bs
         else if 0xC2 \<le> byte \<and> byte \<le> 0xDF then
           utf8_decoder (byte mod 0x20) 0 1 0x80 0xBF bs
         else if 0xE0 \<le> byte \<and> byte \<le> 0xEF then
           utf8_decoder (byte mod 0x10) 0 2
             (if byte = 0xE0 then 0xA0 else 0x80) (if byte = 0xED then 0x9F else 0xBF) bs
         else if 0xF0 \<le> byte \<and> byte \<le> 0xF4 then
           utf8_decoder (byte mod 0x08) 0 3
             (if byte = 0xF0 then 0x90 else 0x80) (if byte = 0xF4 then 0x8F else 0xBF) bs
         else 0xFFFD # utf8_decoder 0 0 0 0x80 0xBF bs)
      else if \<not> (lower \<le> byte \<and> byte \<le> upper) then
        0xFFFD # utf8_decoder 0 0 0 0x80 0xBF (b # bs)
      else if Suc seen \<noteq> needed then
        utf8_decoder (cp * 0x40 + byte mod 0x40) (Suc seen) needed 0x80 0xBF bs
      else (cp * 0x40 + byte mod 0x40) # utf8_decoder 0 0 0 0x80 0xBF bs)"
  by pat_completeness auto
termination
  by (relation "measure (\<lambda>(cp, seen, needed, lower, upper, bs).
        2 * length bs + (if needed = 0 then 0 else 1))") auto

text \<open>One code point as UTF-16 code units: a surrogate pair above the basic plane.\<close>

definition utf16_units :: "nat \<Rightarrow> jsstring" where
  "utf16_units cp =
     (if cp < 0x10000 then [cp]
      else [0xD800 + (cp - 0x10000) div 0x400, 0xDC00 + (cp - 0x10000) mod 0x400])"

text \<open>
  \<^verbatim>\<open>decoder.decode(chunk)\<close> is called without \<^verbatim>\<open>{stream: true}\<close>: every call starts
  a fresh decoder, flushes it at the end of the chunk and drops one leading byte order mark.
\<close>

definition strip_bom :: "nat list \<Rightarrow> nat list" where
  "strip_bom cps = (case cps of [] \<Rightarrow> [] | cp # rest \<Rightarrow> if cp = 0xFEFF then rest else cp # rest)"

definition TextDecoder_decode :: "bytes \<Rightarrow> jsstring" where
  "TextDecoder_decode chunk =
     concat (map utf16_units (strip_bom (utf8_decoder 0 0 0 0x80 0xBF chunk)))"

text \<open>
  \<^verbatim>\<open>encoder.encode(s)\<close>: the string as scalar values (a lone surrogate becomes U+FFFD),
  each written in UTF-8.
\<close>

definition isSurrogate :: "nat \<Rightarrow> bool" where
  "isSurrogate u = (0xD800 \<le> u \<and> u \<le> 0xDFFF)"

fun scalar_values :: "jsstring \<Rightarrow> nat list" where
  "scalar_values [] = []"
| "scalar_values [u] = [if isSurrogate u then 0xFFFD else u]"
| "scalar_values (u # v # rest) =
     (if 0xD800 \<le> u \<and> u \<le> 0xDBFF \<and> 0xDC00 \<le> v \<and> v \<le> 0xDFFF then
        (0x10000 + (u - 0xD800) * 0x400 + (v - 0xDC00)) # scalar_values rest
      else (if isSurrogate u then 0xFFFD else u) # scalar_values (v # rest))"

definition utf8_bytes :: "nat \<Rightarrow> bytes" where
  "utf8_bytes cp =
     (if cp < 0x80 then [char_of cp]
      else if cp < 0x800 then [char_of (0xC0 + cp div 0x40), char_of (0x80 + cp mod 0x40)]
      else if cp < 0x10000 then
        [char_of (0xE0 + cp div 0x1000), char_of (0x80 + cp div 0x40 mod 0x40),
         char_of (0x80 + cp mod 0x40)]
      else
        [char_of (0xF0 + cp div 0x40000), char_of (0x80 + cp div 0x1000 mod 0x40),
         char_of (0x80 + cp div 0x40 mod 0x40), char_of (0x80 + cp mod 0x40)])"

definition TextEncoder_encode :: "jsstring \<Rightarrow> bytes" where
  "TextEncoder_encode s = concat (map utf8_bytes (scalar_values s))"

subsection \<open>Operators on values\<close>

text \<open>\<^verbatim>\<open>ToBoolean\<close>, used by \<^verbatim>\<open>if (data.response)\<close> and by \<^verbatim>\<open>||\<close>.\<close>

fun truthy :: "jsvalue \<Rightarrow> bool" where
  "truthy JUndefined = False"
| "truthy JNull = False"
| "truthy (JBoolean b) = b"
| "truthy (JNumber n) = (case n of Finite r \<Rightarrow> r \<noteq> 0 | NaN \<Rightarrow> False | _ \<Rightarrow> True)"
| "truthy (JString s) = (s \<noteq> [])"
| "truthy (JArray vs) = True"
| "truthy (JObject kvs) = True"

definition js_or :: "jsvalue \<Rightarrow> jsvalue \<Rightarrow> jsvalue" where
  "js_or a b = (if truthy a then a else b)"

text \<open>
  \<^verbatim>\<open>v.k\<close> for the property names the source reads (\<^verbatim>\<open>response\<close>, \<^verbatim>\<open>text\<close>, \<^verbatim>\<open>content\<close>),
  none of which a prototype defines: reading from \<^verbatim>\<open>null\<close> or \<^verbatim>\<open>undefined\<close> throws a
  \<^verbatim>\<open>TypeError\<close>, a missing property reads as \<^verbatim>\<open>undefined\<close>. \<open>get_opt\<close> is \<^verbatim>\<open>v?.k\<close>.
\<close>

fun get :: "jsvalue \<Rightarrow> jsstring \<Rightarrow> exn + jsvalue" where
  "get JUndefined k = Inl TypeError"
| "get JNull k = Inl TypeError"
| "get (JObject kvs) k = Inr (case map_of kvs k of None \<Rightarrow> JUndefined | Some v \<Rightarrow> v)"
| "get v k = Inr JUndefined"

definition get_opt :: "jsvalue \<Rightarrow> jsstring \<Rightarrow> jsvalue" where
  "get_opt v k = (case get v k of Inl e \<Rightarrow> JUndefined | Inr x \<Rightarrow> x)"

fun isString :: "jsvalue \<Rightarrow> bool" where
  "isString (JString s) = True"
| "isString v = False"

section \<open>The stream transformers\<close>

text \<open>
  \<^verbatim>\<open>createChatStreamTransformer(uuid, created, model)\<close> and
  \<^verbatim>\<open>createCompletionStreamTransformer(uuid, created, model)\<close> close over their three
  arguments and over the variables \<^verbatim>\<open>buffer\<close>, \<^verbatim>\<open>pastThinkTag\<close> and, in the chat
  transformer only, \<^verbatim>\<open>isFinished\<close>.
\<close>

record config =
  uuid :: jsstring
  created :: jsnumber
  model :: jsstring

record stream_state =
  buffer :: jsstring
  pastThinkTag :: bool

record chat_state = stream_state +
  isFinished :: bool

definition chat_init :: chat_state where
  "chat_init = \<lparr>buffer = [], pastThinkTag = False, isFinished = False\<rparr>"

definition completion_init :: stream_state where
  "completion_init = \<lparr>buffer = [], pastThinkTag = False\<rparr>"

text \<open>
  Every \<^verbatim>\<open>controller.enqueue\<close> appends one byte array to the output. The tag beside it
  records which statement of the source enqueued it: the frame of a parsed fragment, the
  terminating frame (\<^verbatim>\<open>finish_reason: 'stop'\<close>) or the sentinel frame. \<open>wire\<close> is what
  the client receives.
\<close>

datatype frame_kind = DataFrame | TerminatingFrame | SentinelFrame

type_synonym emitted = "frame_kind \<times> bytes"

definition wire :: "emitted list \<Rightarrow> bytes" where
  "wire out = concat (map snd out)"

definition thinkTagEnd :: jsstring where
  "thinkTagEnd = ascii ''</think>''"

subsection \<open>Frames\<close>

definition chat_finalChunk :: "platform \<Rightarrow> config \<Rightarrow> jsstring" where
  "chat_finalChunk P c =
     ascii ''data: '' @
     JSON_stringify P (JObject
       [(ascii ''id'', JString (uuid c)),
        (ascii ''created'', JNumber (created c)),
        (ascii ''object'', JString (ascii ''chat.completion.chunk'')),
        (ascii ''model'', JString (model c)),
        (ascii ''choices'', JArray [JObject
           [(ascii ''delta'', JObject []),
            (ascii ''index'', JNumber (Finite 0)),
            (ascii ''finish_reason'', JString (ascii ''stop''))]])]) @
     ascii ''\<newline>\<newline>''"

definition chat_newChunk :: "platform \<Rightarrow> config \<Rightarrow> jsvalue \<Rightarrow> jsstring" where
  "chat_newChunk P c content =
     ascii ''data: '' @
     JSON_stringify P (JObject
       [(ascii ''id'', JString (uuid c)),
        (ascii ''created'', JNumber (created c)),
        (ascii ''object'', JString (ascii ''chat.completion.chunk'')),
        (ascii ''model'', JString (model c)),
        (ascii ''choices'', JArray [JObject
           [(ascii ''delta'', JObject
               [(ascii ''role'', JString (ascii ''assistant'')), (ascii ''content'', content)]),
            (ascii ''index'', JNumber (Finite 0)),
            (ascii ''finish_reason'', JNull)]])]) @
     ascii ''\<newline>\<newline>''"

definition completion_newChunk :: "platform \<Rightarrow> config \<Rightarrow> jsvalue \<Rightarrow> jsstring" where
  "completion_newChunk P c text =
     ascii ''data: '' @
     JSON_stringify P (JObject
       [(ascii ''id'', JString (uuid c)),
        (ascii ''created'', JNumber (created c)),
        (ascii ''object'', JString (ascii ''text_completion'')),
        (ascii ''model'', JString (model c)),
        (ascii ''choices'', JArray [JObject
           [(ascii ''text'', text),
            (ascii ''index'', JNumber (Finite 0)),
            (ascii ''logprobs'', JNull),
            (ascii ''finish_reason'', JNull)]])]) @
     ascii ''\<newline>\<newline>''"

definition chat_final_frames :: "platform \<Rightarrow> config \<Rightarrow> emitted list" where
  "chat_final_frames P c =
     [(TerminatingFrame, TextEncoder_encode (chat_finalChunk P c)),
      (SentinelFrame, TextEncoder_encode (ascii ''data: [DONE]\<newline>\<newline>''))]"

subsection \<open>The chat transformer\<close>

text \<open>
  \<^verbatim>\<open>typeof data.response === 'string' ? data.response
     : data.response?.text || data.response?.content || JSON.stringify(data.response)\<close>
\<close>

definition actualContent :: "platform \<Rightarrow> jsvalue \<Rightarrow> jsvalue" where
  "actualContent P response =
     (if isString response then response
      else js_or (js_or (get_opt response (ascii ''text'')) (get_opt response (ascii ''content'')))
             (JString (JSON_stringify P response)))"

text \<open>
  The body of the \<^verbatim>\<open>try\<close> block for one line: the exception it throws, or the frames
  it enqueues and whether it executed \<^verbatim>\<open>isFinished = true; return\<close>. Nothing is
  enqueued before a statement that can throw.
\<close>

definition chat_try :: "platform \<Rightarrow> config \<Rightarrow> jsstring \<Rightarrow> exn + (emitted list \<times> bool)" where
  "chat_try P c line =
     (if startsWith line (ascii ''data: '') then
        (let content = drop (length (ascii ''data: '')) line in
         if trim content = ascii ''[DONE]'' then Inr (chat_final_frames P c, True)
         else
           (case JSON_parse P content of
              Inl err \<Rightarrow> Inl err
            | Inr data \<Rightarrow>
                (case get data (ascii ''response'') of
                   Inl err \<Rightarrow> Inl err
                 | Inr response \<Rightarrow>
                     if truthy response then
                       Inr ([(DataFrame,
                              TextEncoder_encode (chat_newChunk P c (actualContent P response)))],
                            False)
                     else Inr ([], False))))
      else Inr ([], False))"

text \<open>
  The \<^verbatim>\<open>while (true)\<close> loop over the complete lines of the buffer: the buffer left, whether
  the loop was left through the sentinel line, and the frames enqueued. The \<^verbatim>\<open>catch\<close>
  block logs the exception and the loop goes on.
\<close>

function chat_lines :: "platform \<Rightarrow> config \<Rightarrow> jsstring \<Rightarrow> jsstring \<times> bool \<times> emitted list" where
  "chat_lines P c buf =
     (case indexOf buf (ascii ''\<newline>'') of
        None \<Rightarrow> (buf, False, [])
      | Some newlineIndex \<Rightarrow>
          (case chat_try P c (take (newlineIndex + 1) buf) of
             Inl err \<Rightarrow> chat_lines P c (drop (newlineIndex + 1) buf)
           | Inr (out, finished) \<Rightarrow>
               if finished then (drop (newlineIndex + 1) buf, True, out)
               else
                 (case chat_lines P c (drop (newlineIndex + 1) buf) of
                    (buf', finished', out') \<Rightarrow> (buf', finished', out @ out'))))"
  by pat_completeness auto
termination
proof (relation "measure (\<lambda>(P, c, buf). length buf)")
  show "wf (measure (\<lambda>(P, c, buf). length buf))" by simp
next
  fix P :: platform and c :: config and buf :: jsstring and i err
  assume "indexOf buf (ascii ''\<newline>'') = Some i"
  then have "buf \<noteq> []" by (cases buf) (simp_all add: ascii_def)
  then show "((P, c, drop (i + 1) buf), (P, c, buf)) \<in> measure (\<lambda>(P, c, buf). length buf)"
    by simp
next
  fix P :: platform and c :: config and buf :: jsstring and i
  assume "indexOf buf (ascii ''\<newline>'') = Some i"
  then have "buf \<noteq> []" by (cases buf) (simp_all add: ascii_def)
  then show "((P, c, drop (i + 1) buf), (P, c, buf)) \<in> measure (\<lambda>(P, c, buf). length buf)"
    by simp
qed

definition chat_while :: "platform \<Rightarrow> config \<Rightarrow> chat_state \<Rightarrow> chat_state \<times> emitted list" where
  "chat_while P c s =
     (case chat_lines P c (buffer s) of
        (buf, finished, out) \<Rightarrow> (s\<lparr>buffer := buf, isFinished := (isFinished s \<or> finished)\<rparr>, out))"

text \<open>The body of \<^verbatim>\<open>transform(chunk, controller)\<close>, with the decoded text of the chunk.\<close>

definition chat_transform_text ::
  "platform \<Rightarrow> config \<Rightarrow> chat_state \<Rightarrow> jsstring \<Rightarrow> chat_state \<times> emitted list" where
  "chat_transform_text P c s text =
     (if isFinished s then (s, [])
      else
        (let s1 = s\<lparr>buffer := buffer s @ text\<rparr> in
         if \<not> pastThinkTag s1 then
           (case indexOf (buffer s1) thinkTagEnd of
              Some thinkIndex \<Rightarrow>
                chat_while P c
                  (s1\<lparr>buffer := drop (thinkIndex + length thinkTagEnd) (buffer s1),
                      pastThinkTag := True\<rparr>)
            | None \<Rightarrow> (s1, []))
         else chat_while P c s1))"

definition chat_transform ::
  "platform \<Rightarrow> config \<Rightarrow> chat_state \<Rightarrow> bytes \<Rightarrow> chat_state \<times> emitted list" where
  "chat_transform P c s chunk = chat_transform_text P c s (TextDecoder_decode chunk)"

definition chat_flush :: "platform \<Rightarrow> config \<Rightarrow> chat_state \<Rightarrow> chat_state \<times> emitted list" where
  "chat_flush P c s = (if \<not> isFinished s then (s, chat_final_frames P c) else (s, []))"

subsection \<open>The completion transformer\<close>

text \<open>
  The \<^verbatim>\<open>try\<close> block of the completion transformer: the exception thrown, or the frames
  enqueued and whether \<^verbatim>\<open>return\<close> was executed. \<^verbatim>\<open>data.response\<close> is written into the
  frame as it is, \<^verbatim>\<open>undefined\<close> included.
\<close>

definition completion_try :: "platform \<Rightarrow> config \<Rightarrow> jsstring \<Rightarrow> exn + (emitted list \<times> bool)" where
  "completion_try P c line =
     (if startsWith line (ascii ''data: '') then
        (let content = drop (length (ascii ''data: '')) line in
         if trim content = ascii ''[DONE]'' then
           Inr ([(SentinelFrame, TextEncoder_encode (ascii ''data: [DONE]\<newline>\<newline>''))], True)
         else
           (case JSON_parse P content of
              Inl err \<Rightarrow> Inl err
            | Inr data \<Rightarrow>
                (case get data (ascii ''response'') of
                   Inl err \<Rightarrow> Inl err
                 | Inr response \<Rightarrow>
                     Inr ([(DataFrame, TextEncoder_encode (completion_newChunk P c response))],
                          False))))
      else Inr ([], False))"

function completion_lines :: "platform \<Rightarrow> config \<Rightarrow> jsstring \<Rightarrow> jsstring \<times> emitted list" where
  "completion_lines P c buf =
     (case indexOf buf (ascii ''\<newline>'') of
        None \<Rightarrow> (buf, [])
      | Some newlineIndex \<Rightarrow>
          (case completion_try P c (take (newlineIndex + 1) buf) of
             Inl err \<Rightarrow> completion_lines P c (drop (newlineIndex + 1) buf)
           | Inr (out, returned) \<Rightarrow>
               if returned then (drop (newlineIndex + 1) buf, out)
               else
                 (case completion_lines P c (drop (newlineIndex + 1) buf) of
                    (buf', out') \<Rightarrow> (buf', out @ out'))))"
  by pat_completeness auto
termination
proof (relation "measure (\<lambda>(P, c, buf). length buf)")
  show "wf (measure (\<lambda>(P, c, buf). length buf))" by simp
next
  fix P :: platform and c :: config and buf :: jsstring and i err
  assume "indexOf buf (ascii ''\<newline>'') = Some i"
  then have "buf \<noteq> []" by (cases buf) (simp_all add: ascii_def)
  then show "((P, c, drop (i + 1) buf), (P, c, buf)) \<in> measure (\<lambda>(P, c, buf). length buf)"
    by simp
next
  fix P :: platform and c :: config and buf :: jsstring and i
  assume "indexOf buf (ascii ''\<newline>'') = Some i"
  then have "buf \<noteq> []" by (cases buf) (simp_all add: ascii_def)
  then show "((P, c, drop (i + 1) buf), (P, c, buf)) \<in> measure (\<lambda>(P, c, buf). length buf)"
    by simp
qed

definition completion_while ::
  "platform \<Rightarrow> config \<Rightarrow> stream_state \<Rightarrow> stream_state \<times> emitted list" where
  "completion_while P c s =
     (case completion_lines P c (buffer s) of (buf, out) \<Rightarrow> (s\<lparr>buffer := buf\<rparr>, out))"

definition completion_transform_text ::
  "platform \<Rightarrow> config \<Rightarrow> stream_state \<Rightarrow> jsstring \<Rightarrow> stream_state \<times> emitted list" where
  "completion_transform_text P c s text =
     (let s1 = s\<lparr>buffer := buffer s @ text\<rparr> in
      if \<not> pastThinkTag s1 then
        (case indexOf (buffer s1) thinkTagEnd of
           Some thinkIndex \<Rightarrow>
             completion_while P c
               (s1\<lparr>buffer := drop (thinkIndex + length thinkTagEnd) (buffer s1),
                   pastThinkTag := True\<rparr>)
         | None \<Rightarrow> (s1, []))
      else completion_while P c s1)"

definition completion_transform ::
  "platform \<Rightarrow> config \<Rightarrow> stream_state \<Rightarrow> bytes \<Rightarrow> stream_state \<times> emitted list" where
  "completion_transform P c s chunk = completion_transform_text P c s (TextDecoder_decode chunk)"

text \<open>
  The completion transformer is created without a \<^verbatim>\<open>flush\<close> method: closing the stream
  runs no code of the repository and enqueues nothing.
\<close>

definition completion_flush ::
  "platform \<Rightarrow> config \<Rightarrow> stream_state \<Rightarrow> stream_state \<times> emitted list" where
  "completion_flush P c s = (s, [])"

subsection \<open>Sessions\<close>

text \<open>
  \<^verbatim>\<open>aiResp.pipeThrough(transformer)\<close> calls \<^verbatim>\<open>transform\<close> once for every chunk of the
  upstream, in order, and \<^verbatim>\<open>flush\<close> once when the upstream ends.
\<close>

fun chat_run_text ::
  "platform \<Rightarrow> config \<Rightarrow> chat_state \<Rightarrow> jsstring list \<Rightarrow> chat_state \<times> emitted list" where
  "chat_run_text P c s [] = (s, [])"
| "chat_run_text P c s (t # ts) =
     (case chat_transform_text P c s t of
        (s1, out1) \<Rightarrow> (case chat_run_text P c s1 ts of (s2, out2) \<Rightarrow> (s2, out1 @ out2)))"

definition chat_run ::
  "platform \<Rightarrow> config \<Rightarrow> chat_state \<Rightarrow> bytes list \<Rightarrow> chat_state \<times> emitted list" where
  "chat_run P c s chunks = chat_run_text P c s (map TextDecoder_decode chunks)"

definition chat_session :: "platform \<Rightarrow> config \<Rightarrow> bytes list \<Rightarrow> emitted list" where
  "chat_session P c chunks =
     (case chat_run P c chat_init chunks of (s, out) \<Rightarrow> out @ snd (chat_flush P c s))"

fun completion_run_text ::
  "platform \<Rightarrow> config \<Rightarrow> stream_state \<Rightarrow> jsstring list \<Rightarrow> stream_state \<times> emitted list" where
  "completion_run_text P c s [] = (s, [])"
| "completion_run_text P c s (t # ts) =
     (case completion_transform_text P c s t of
        (s1, out1) \<Rightarrow> (case completion_run_text P c s1 ts of (s2, out2) \<Rightarrow> (s2, out1 @ out2)))"

definition completion_run ::
  "platform \<Rightarrow> config \<Rightarrow> stream_state \<Rightarrow> bytes list \<Rightarrow> stream_state \<times> emitted list" where
  "completion_run P c s chunks = completion_run_text P c s (map TextDecoder_decode chunks)"

definition completion_session :: "platform \<Rightarrow> config \<Rightarrow> bytes list \<Rightarrow> emitted list" where
  "completion_session P c chunks =
     (case completion_run P c completion_init chunks of
        (s, out) \<Rightarrow> out @ snd (completion_flush P c s))"




text \<open>
  The text behind the closing marker, as lines 187 to 189 and 282 to 284 of the source cut
  it out of the buffer; \<open>None\<close> when the marker does not occur.
\<close>

definition behind_marker :: "jsstring \<Rightarrow> jsstring option" where
  "behind_marker text =
     (case indexOf text thinkTagEnd of
        None \<Rightarrow> None
      | Some thinkIndex \<Rightarrow> Some (drop (thinkIndex + length thinkTagEnd) text))"

subsection \<open>A platform and a request to run the transformers on\<close>

text \<open>
  The theorems hold for every platform. To run the transformers on given chunks,
  \<open>sample_platform\<close> does what the engine does on the texts and values that occur below:
  \<open>sample_parse\<close> parses the listed objects as written and throws on the other texts
  (none of which is JSON), \<open>sample_stringify\<close> writes objects, arrays, strings that need
  no escape, natural numbers and \<^verbatim>\<open>null\<close>, and leaves out a property whose value is
  \<^verbatim>\<open>undefined\<close>. \<open>sample_config\<close> is one request.
\<close>

definition sample_parse :: "jsstring \<Rightarrow> exn + jsvalue" where
  "sample_parse s =
     (if s = ascii ''{\"response\":\"42\"}\<newline>'' then
        Inr (JObject [(ascii ''response'', JString (ascii ''42''))])
      else if s = ascii ''{\"response\":\"Hi\"}\<newline>'' then
        Inr (JObject [(ascii ''response'', JString (ascii ''Hi''))])
      else if s = ascii ''{\"response\":\"\"}\<newline>'' then
        Inr (JObject [(ascii ''response'', JString [])])
      else if s = ascii ''{\"response\":{\"text\":\"\",\"content\":\"Hi\"}}\<newline>'' then
        Inr (JObject [(ascii ''response'',
               JObject [(ascii ''text'', JString []), (ascii ''content'', JString (ascii ''Hi''))])])
      else if s = ascii ''{\"response\":\"'' @ [0xE9] @ ascii ''\"}\<newline>'' then
        Inr (JObject [(ascii ''response'', JString [0xE9])])
      else if s = ascii ''{\"response\":\"'' @ [0xFFFD, 0xFFFD] @ ascii ''\"}\<newline>'' then
        Inr (JObject [(ascii ''response'', JString [0xFFFD, 0xFFFD])])
      else Inl SyntaxError)"

function nat_digits :: "nat \<Rightarrow> jsstring" where
  "nat_digits n = (if n < 10 then [0x30 + n] else nat_digits (n div 10) @ [0x30 + n mod 10])"
  by pat_completeness auto
termination
  by (relation "measure (\<lambda>n. n)") auto

fun join :: "jsstring \<Rightarrow> jsstring list \<Rightarrow> jsstring" where
  "join sep [] = []"
| "join sep [x] = x"
| "join sep (x # y # rest) = x @ sep @ join sep (y # rest)"

fun sample_stringify :: "jsvalue \<Rightarrow> jsstring"
  and sample_stringify_elements :: "jsvalue list \<Rightarrow> jsstring list"
  and sample_stringify_properties :: "(jsstring \<times> jsvalue) list \<Rightarrow> jsstring list"
  and sample_stringify_property :: "jsstring \<times> jsvalue \<Rightarrow> jsstring list" where
  "sample_stringify JUndefined = ascii ''null''"
| "sample_stringify JNull = ascii ''null''"
| "sample_stringify (JBoolean b) = (if b then ascii ''true'' else ascii ''false'')"
| "sample_stringify (JNumber n) =
     (case n of Finite r \<Rightarrow> nat_digits (nat \<lfloor>r\<rfloor>) | _ \<Rightarrow> ascii ''null'')"
| "sample_stringify (JString s) = ascii ''\"'' @ s @ ascii ''\"''"
| "sample_stringify (JArray vs) =
     ascii ''['' @ join (ascii '','') (sample_stringify_elements vs) @ ascii '']''"
| "sample_stringify (JObject kvs) =
     ascii ''{'' @ join (ascii '','') (sample_stringify_properties kvs) @ ascii ''}''"
| "sample_stringify_elements [] = []"
| "sample_stringify_elements (v # vs) = sample_stringify v # sample_stringify_elements vs"
| "sample_stringify_properties [] = []"
| "sample_stringify_properties (kv # kvs) =
     sample_stringify_property kv @ sample_stringify_properties kvs"
| "sample_stringify_property (k, v) =
     (if v = JUndefined then [] else [ascii ''\"'' @ k @ ascii ''\":'' @ sample_stringify v])"

definition sample_platform :: platform where
  "sample_platform = \<lparr>JSON_parse = sample_parse, JSON_stringify = sample_stringify\<rparr>"

definition sample_config :: config where
  "sample_config = \<lparr>uuid = ascii ''req-1'', created = Finite 1700000000, model = ascii ''llama''\<rparr>"

section \<open>Searching in strings\<close>

declare chat_lines.simps [simp del]
declare completion_lines.simps [simp del]

lemma newline_ascii: "ascii ''\<newline>'' = [10]"
  by (simp add: ascii_def)

lemma startsWith_length: "startsWith s p \<Longrightarrow> length p \<le> length s"
proof -
  assume "startsWith s p"
  then have "length (take (length p) s) = length p" by (simp add: startsWith_def)
  then show ?thesis by simp
qed

lemma indexOf_bound: "indexOf s p = Some i \<Longrightarrow> i + length p \<le> length s"
proof (induction s arbitrary: i)
  case Nil
  then show ?case by (simp split: if_splits)
next
  case (Cons x xs)
  show ?case
  proof (cases "startsWith (x # xs) p")
    case True
    then have "length p \<le> length (x # xs)" by (rule startsWith_length)
    with True Cons.prems show ?thesis by simp
  next
    case False
    with Cons.prems obtain j where "indexOf xs p = Some j" "i = Suc j" by auto
    with Cons.IH show ?thesis by fastforce
  qed
qed

lemma startsWith_append: "startsWith s p \<Longrightarrow> startsWith (s @ u) p"
  unfolding startsWith_def by (metis append_eq_conv_conj append.assoc append_take_drop_id)

lemma startsWith_append_iff: "length p \<le> length s \<Longrightarrow> startsWith (s @ u) p = startsWith s p"
  unfolding startsWith_def by simp

lemma indexOf_append: "indexOf s p = Some i \<Longrightarrow> indexOf (s @ u) p = Some i"
proof (induction s arbitrary: i)
  case Nil
  then show ?case by (cases u) (simp_all add: startsWith_def split: if_splits)
next
  case (Cons x xs)
  show ?case
  proof (cases "startsWith (x # xs) p")
    case True
    with Cons.prems startsWith_append [OF True, of u] show ?thesis by simp
  next
    case False
    with Cons.prems obtain j where j: "indexOf xs p = Some j" "i = Suc j" by auto
    from indexOf_bound [OF j(1)] have "length p \<le> length (x # xs)" by simp
    with False startsWith_append_iff [of p "x # xs" u]
    have "\<not> startsWith ((x # xs) @ u) p" by blast
    with j Cons.IH show ?thesis by simp
  qed
qed

lemma indexOf_append_None: "indexOf (s @ u) p = None \<Longrightarrow> indexOf s p = None"
  using indexOf_append by (cases "indexOf s p") fastforce+

lemma indexOf_newline: "10 \<notin> set body \<Longrightarrow> indexOf (body @ 10 # rest) [10] = Some (length body)"
  by (induction body) (simp_all add: startsWith_def)

lemma indexOf_no_newline: "10 \<notin> set s \<Longrightarrow> indexOf s [10] = None"
  by (induction s) (simp_all add: startsWith_def)

lemma indexOf_Some_take: "indexOf s p = Some i \<Longrightarrow> take (length p) (drop i s) = p"
proof (induction s arbitrary: i)
  case Nil then show ?case by (simp split: if_splits)
next
  case (Cons x xs)
  then show ?case by (auto simp: startsWith_def split: if_splits)
qed



lemma chat_lines_None:
  "indexOf buf (ascii ''\<newline>'') = None \<Longrightarrow> chat_lines P c buf = (buf, False, [])"
  by (simp add: chat_lines.simps [of P c buf])

lemma chat_lines_Some:
  "indexOf buf (ascii ''\<newline>'') = Some i \<Longrightarrow>
   chat_lines P c buf =
     (case chat_try P c (take (i + 1) buf) of
        Inl err \<Rightarrow> chat_lines P c (drop (i + 1) buf)
      | Inr (out, finished) \<Rightarrow>
          if finished then (drop (i + 1) buf, True, out)
          else
            (case chat_lines P c (drop (i + 1) buf) of
               (buf', finished', out') \<Rightarrow> (buf', finished', out @ out')))"
  by (simp add: chat_lines.simps [of P c buf])


lemma completion_lines_Some:
  "indexOf buf (ascii ''\<newline>'') = Some i \<Longrightarrow>
   completion_lines P c buf =
     (case completion_try P c (take (i + 1) buf) of
        Inl err \<Rightarrow> completion_lines P c (drop (i + 1) buf)
      | Inr (out, returned) \<Rightarrow>
          if returned then (drop (i + 1) buf, out)
          else
            (case completion_lines P c (drop (i + 1) buf) of
               (buf', out') \<Rightarrow> (buf', out @ out')))"
  by (simp add: completion_lines.simps [of P c buf])



lemma thinkTagEnd_length: "length thinkTagEnd = 8"
  by (simp add: thinkTagEnd_def ascii_def)





section \<open>Evaluating the transformers on given chunks\<close>

lemmas eval_defs = ascii_def TextDecoder_decode_def strip_bom_def utf16_units_def
  thinkTagEnd_def startsWith_def trim_def isWhiteSpace_def Let_def

lemmas encode_defs = TextEncoder_encode_def utf8_bytes_def isSurrogate_def char_of_def
  bit_Suc_0_iff

lemmas run_defs = chat_session_def chat_run_def chat_init_def chat_flush_def
  chat_transform_def chat_transform_text_def chat_while_def chat_lines.simps chat_try_def
  chat_final_frames_def completion_session_def completion_run_def completion_init_def
  completion_flush_def completion_transform_def completion_transform_text_def
  completion_while_def completion_lines.simps completion_try_def

lemmas sample_defs = sample_platform_def sample_config_def sample_parse_def actualContent_def
  chat_newChunk_def chat_finalChunk_def completion_newChunk_def wire_def js_or_def get_opt_def

section \<open>Chunk boundaries\<close>

text \<open>Decoding distributes over chunks of ASCII bytes, however they are cut.\<close>

lemma utf8_decoder_ascii:
  "\<forall>b\<in>set bs. (of_char b :: nat) \<le> 0x7F \<Longrightarrow> utf8_decoder 0 0 0 0x80 0xBF bs = map of_char bs"
  by (induction bs) simp_all

lemma utf16_units_ascii:
  "\<forall>u\<in>set us. u \<le> 0x7F \<Longrightarrow> concat (map utf16_units us) = us"
  by (induction us) (simp_all add: utf16_units_def)

lemma TextDecoder_decode_ascii:
  assumes "\<forall>b\<in>set bs. (of_char b :: nat) \<le> 0x7F"
  shows "TextDecoder_decode bs = ascii bs"
proof -
  have "strip_bom (map of_char bs) = map of_char bs"
    using assms by (cases bs) (auto simp: strip_bom_def)
  moreover have "\<forall>u\<in>set (map of_char bs). u \<le> (0x7F :: nat)" using assms by simp
  ultimately show ?thesis
    using utf16_units_ascii [of "map of_char bs"]
    by (simp add: TextDecoder_decode_def utf8_decoder_ascii [OF assms] ascii_def)
qed

lemma TextDecoder_decode_ascii_chunks:
  assumes "\<forall>chunk\<in>set chunks. \<forall>b\<in>set chunk. (of_char b :: nat) \<le> 0x7F"
  shows "concat (map TextDecoder_decode chunks) = TextDecoder_decode (concat chunks)"
proof -
  have 1: "map TextDecoder_decode chunks = map ascii chunks"
    using assms by (intro map_cong refl TextDecoder_decode_ascii) auto
  have 2: "TextDecoder_decode (concat chunks) = ascii (concat chunks)"
    using assms by (intro TextDecoder_decode_ascii) auto
  have 3: "ascii (concat chunks) = concat (map ascii chunks)"
    by (induction chunks) (simp_all add: ascii_def)
  show ?thesis unfolding 1 2 3 ..
qed











lemma behind_marker_distributes:
  "concat (map TextDecoder_decode chunks) = TextDecoder_decode (concat chunks) \<Longrightarrow>
   behind_marker (concat (map TextDecoder_decode chunks)) =
   behind_marker (TextDecoder_decode (concat chunks))"
  by simp




section \<open>Termination frames\<close>

lemma chat_try_kinds:
  "chat_try P c line = Inr (out, fin) \<Longrightarrow>
     (fin \<longrightarrow> out = chat_final_frames P c) \<and> (\<not> fin \<longrightarrow> (\<forall>e\<in>set out. fst e = DataFrame))"
  by (auto simp: chat_try_def Let_def split: if_splits sum.splits)

lemma chat_lines_kinds:
  "chat_lines P c b = (r, fin, out) \<Longrightarrow>
     \<exists>ds. (\<forall>e\<in>set ds. fst e = DataFrame) \<and>
          out = ds @ (if fin then chat_final_frames P c else [])"
proof (induction P c b arbitrary: r fin out rule: chat_lines.induct)
  case (1 P c buf)
  show ?case
  proof (cases "indexOf buf (ascii ''\<newline>'')")
    case None
    with "1.prems" show ?thesis by (simp add: chat_lines_None)
  next
    case (Some i)
    note L = chat_lines_Some [OF Some, of P c]
    show ?thesis
    proof (cases "chat_try P c (take (i + 1) buf)")
      case (Inl e)
      with "1.prems" L have "chat_lines P c (drop (i + 1) buf) = (r, fin, out)" by simp
      from "1.IH"(1) [OF Some Inl this] show ?thesis .
    next
      case (Inr x)
      obtain o1 f1 where x: "x = (o1, f1)" by (cases x)
      note k = chat_try_kinds [OF Inr [unfolded x]]
      show ?thesis
      proof (cases f1)
        case True
        with "1.prems" L Inr x k show ?thesis by auto
      next
        case False
        obtain r2 f2 o2 where rec: "chat_lines P c (drop (i + 1) buf) = (r2, f2, o2)"
          by (cases "chat_lines P c (drop (i + 1) buf)") auto
        from "1.IH"(2) [OF Some Inr [unfolded x] refl False rec]
        obtain ds where ds: "\<forall>e\<in>set ds. fst e = DataFrame"
          "o2 = ds @ (if f2 then chat_final_frames P c else [])" by blast
        from "1.prems" L Inr x False rec have "out = o1 @ o2" "fin = f2" by auto
        with ds k False have "(\<forall>e\<in>set (o1 @ ds). fst e = DataFrame) \<and>
            out = (o1 @ ds) @ (if fin then chat_final_frames P c else [])" by auto
        then show ?thesis by blast
      qed
    qed
  qed
qed

lemma chat_transform_text_kinds:
  assumes "\<not> isFinished s" "chat_transform_text P c s t = (s', out)"
  shows "\<exists>ds. (\<forall>e\<in>set ds. fst e = DataFrame) \<and>
          out = ds @ (if isFinished s' then chat_final_frames P c else [])"
proof -
  have w: "\<exists>ds. (\<forall>e\<in>set ds. fst e = DataFrame) \<and>
          out = ds @ (if isFinished s' then chat_final_frames P c else [])"
    if "chat_while P c s0 = (s', out)" "\<not> isFinished s0" for s0
  proof -
    obtain r fin o1 where l: "chat_lines P c (buffer s0) = (r, fin, o1)"
      by (cases "chat_lines P c (buffer s0)") auto
    with that have "out = o1" "isFinished s' = fin" by (auto simp: chat_while_def)
    with chat_lines_kinds [OF l] show ?thesis by simp
  qed
  show ?thesis
  proof (cases "pastThinkTag s")
    case True
    with assms have "chat_while P c (s\<lparr>buffer := buffer s @ t\<rparr>) = (s', out)"
      by (simp add: chat_transform_text_def)
    from w [OF this] assms(1) show ?thesis by simp
  next
    case False
    show ?thesis
    proof (cases "indexOf (buffer s @ t) thinkTagEnd")
      case None
      with False assms show ?thesis by (auto simp: chat_transform_text_def)
    next
      case (Some i)
      with False assms have "chat_while P c
          (s\<lparr>buffer := drop (i + length thinkTagEnd) (buffer s @ t), pastThinkTag := True\<rparr>) = (s', out)"
        by (simp add: chat_transform_text_def del: drop_append)
      from w [OF this] assms(1) show ?thesis by simp
    qed
  qed
qed

lemma chat_run_text_finished:
  "isFinished s \<Longrightarrow> chat_run_text P c s ts = (s, [])"
  by (induction ts) (simp_all add: chat_transform_text_def)

lemma chat_run_text_kinds:
  "\<not> isFinished s \<Longrightarrow> chat_run_text P c s ts = (s', out) \<Longrightarrow>
     \<exists>ds. (\<forall>e\<in>set ds. fst e = DataFrame) \<and>
          out = ds @ (if isFinished s' then chat_final_frames P c else [])"
proof (induction ts arbitrary: s out)
  case Nil
  then show ?case by auto
next
  case (Cons t ts)
  obtain s1 o1 where st: "chat_transform_text P c s t = (s1, o1)"
    by (cases "chat_transform_text P c s t") auto
  from chat_transform_text_kinds [OF Cons.prems(1) st]
  obtain d1 where d1: "\<forall>e\<in>set d1. fst e = DataFrame"
    "o1 = d1 @ (if isFinished s1 then chat_final_frames P c else [])" by blast
  show ?case
  proof (cases "isFinished s1")
    case True
    with Cons.prems(2) st chat_run_text_finished [OF True, of P c ts]
    have "s' = s1" "out = o1" by auto
    with d1 True show ?thesis by auto
  next
    case False
    obtain o2 where rec: "chat_run_text P c s1 ts = (s', o2)" and out: "out = o1 @ o2"
      using Cons.prems(2) st by (auto split: prod.splits)
    from Cons.IH [OF False rec]
    obtain d2 where d2: "\<forall>e\<in>set d2. fst e = DataFrame"
      "o2 = d2 @ (if isFinished s' then chat_final_frames P c else [])" by blast
    from d1 d2 False out have "(\<forall>e\<in>set (d1 @ d2). fst e = DataFrame) \<and>
       out = (d1 @ d2) @ (if isFinished s' then chat_final_frames P c else [])" by auto
    then show ?thesis by blast
  qed
qed

lemma chat_session_shape:
  "\<exists>ds. (\<forall>e\<in>set ds. fst e = DataFrame) \<and> chat_session P c chunks = ds @ chat_final_frames P c"
proof -
  obtain s' out where r: "chat_run_text P c chat_init (map TextDecoder_decode chunks) = (s', out)"
    by (cases "chat_run_text P c chat_init (map TextDecoder_decode chunks)") auto
  have "\<not> isFinished chat_init" by (simp add: chat_init_def)
  from chat_run_text_kinds [OF this r] r show ?thesis
    by (auto simp: chat_session_def chat_run_def chat_flush_def)
qed

lemma count_list_data:
  "\<forall>e\<in>set ds. fst e = DataFrame \<Longrightarrow> k \<noteq> DataFrame \<Longrightarrow> count_list (map fst ds) k = 0"
  by (induction ds) auto

text \<open>
  C2, exactly-once termination. As stated the claim fails in completion mode: no terminating
  frame is ever enqueued there, and the sentinel frame is enqueued once for every sentinel
  line that is processed and not at all when the upstream ends without one. What holds:
  in chat mode, for every list of chunks followed by the one flush of the stream, the frames
  enqueued are data frames followed by the terminating frame and the sentinel frame, each of
  the two enqueued exactly once, however many sentinel lines the upstream sends.
\<close>

theorem chat_exactly_once:
  "count_list (map fst (chat_session P c chunks)) TerminatingFrame = 1
   \<and> count_list (map fst (chat_session P c chunks)) SentinelFrame = 1
   \<and> (\<exists>frames. chat_session P c chunks = frames @ chat_final_frames P c)"
proof -
  from chat_session_shape [of P c chunks]
  obtain ds where ds: "\<forall>e\<in>set ds. fst e = DataFrame"
    "chat_session P c chunks = ds @ chat_final_frames P c" by blast
  from ds count_list_data [OF ds(1)] show ?thesis
    by (auto simp: chat_final_frames_def)
qed

text \<open>
  In completion mode two sentinel lines in two chunks give two sentinel frames and no
  terminating frame; an upstream that ends without a sentinel line gives no sentinel frame.
\<close>

theorem exactly_once_counterexample:
  "count_list (map fst (completion_session sample_platform sample_config
      [''</think>data: [DONE]\<newline>'', ''data: [DONE]\<newline>''])) SentinelFrame = 2
   \<and> count_list (map fst (completion_session sample_platform sample_config
      [''</think>data: [DONE]\<newline>'', ''data: [DONE]\<newline>''])) TerminatingFrame = 0
   \<and> count_list (map fst (completion_session sample_platform sample_config
      [''</think>data: {\"response\":\"42\"}\<newline>''])) SentinelFrame = 0"
  by (simp add: run_defs eval_defs sample_defs)

section \<open>After the sentinel line\<close>

lemma chat_finished_ignores_input:
  "isFinished s \<Longrightarrow> chat_transform P c s chunk = (s, []) \<and> chat_flush P c s = (s, [])"
  by (simp add: chat_transform_def chat_transform_text_def chat_flush_def)

text \<open>
  C3, nothing after the sentinel line. The chat transformer keeps the claim (the lemma
  above); the completion transformer has no finished flag, its \<^verbatim>\<open>return\<close> leaves only the
  current call: after the sentinel line of one chunk, the lines of the next chunk are
  framed and enqueued.
\<close>

theorem completion_emits_after_sentinel:
  "completion_run sample_platform sample_config completion_init [''</think>data: [DONE]\<newline>''] =
     (\<lparr>buffer = [], pastThinkTag = True\<rparr>, [(SentinelFrame, ''data: [DONE]\<newline>\<newline>'')])
   \<and> map fst (snd (completion_transform sample_platform sample_config
         \<lparr>buffer = [], pastThinkTag = True\<rparr> ''data: {\"response\":\"42\"}\<newline>'')) = [DataFrame]
   \<and> map fst (completion_session sample_platform sample_config
         [''</think>data: [DONE]\<newline>'', ''data: {\"response\":\"42\"}\<newline>data: [DONE]\<newline>'']) =
       [SentinelFrame, DataFrame, SentinelFrame]"
  by (simp add: run_defs eval_defs encode_defs sample_defs)




section \<open>Lines\<close>

lemma data_prefix_length: "length (ascii ''data: '') = 6"
  by (simp add: ascii_def)

lemma first_line:
  assumes "10 \<notin> set body"
  shows "indexOf (ascii ''data: '' @ body @ 10 # rest) (ascii ''\<newline>'') =
           Some (length (ascii ''data: '' @ body))"
    and "take (length (ascii ''data: '' @ body) + 1) (ascii ''data: '' @ body @ 10 # rest) =
           ascii ''data: '' @ body @ [10]"
    and "drop (length (ascii ''data: '' @ body) + 1) (ascii ''data: '' @ body @ 10 # rest) = rest"
proof -
  have "10 \<notin> set (ascii ''data: '' @ body)" using assms by (simp add: ascii_def)
  from indexOf_newline [OF this, of rest]
  show "indexOf (ascii ''data: '' @ body @ 10 # rest) (ascii ''\<newline>'') =
           Some (length (ascii ''data: '' @ body))"
    by (simp add: newline_ascii)
  show "take (length (ascii ''data: '' @ body) + 1) (ascii ''data: '' @ body @ 10 # rest) =
           ascii ''data: '' @ body @ [10]" by simp
  show "drop (length (ascii ''data: '' @ body) + 1) (ascii ''data: '' @ body @ 10 # rest) = rest"
    by simp
qed

lemma data_line_content:
  "startsWith (ascii ''data: '' @ body @ [10]) (ascii ''data: '')"
  "drop (length (ascii ''data: '')) (ascii ''data: '' @ body @ [10]) = body @ [10]"
  by (simp_all add: startsWith_def)

text \<open>
  C9, the asymmetry of finalization. In completion mode a sentinel line (a line that
  starts with the event prefix and whose content trims to the sentinel literal) enqueues the
  sentinel frame alone and leaves the loop; closing the stream enqueues nothing, so a
  completion session is what its \<^verbatim>\<open>transform\<close> calls enqueued. In chat mode the flush of an
  unfinished session enqueues the terminating frame and the sentinel frame.
\<close>

theorem completion_finalization_asymmetry:
  assumes "10 \<notin> set body" and "trim (body @ [10]) = ascii ''[DONE]''" and "\<not> isFinished s"
  shows "completion_lines P c (ascii ''data: '' @ body @ 10 # rest) =
           (rest, [(SentinelFrame, TextEncoder_encode (ascii ''data: [DONE]\<newline>\<newline>''))])
       \<and> completion_flush P c t = (t, [])
       \<and> completion_session P c chunks = snd (completion_run P c completion_init chunks)
       \<and> chat_flush P c s =
           (s, [(TerminatingFrame, TextEncoder_encode (chat_finalChunk P c)),
                (SentinelFrame, TextEncoder_encode (ascii ''data: [DONE]\<newline>\<newline>''))])"
proof -
  have "completion_try P c (ascii ''data: '' @ body @ [10]) =
          Inr ([(SentinelFrame, TextEncoder_encode (ascii ''data: [DONE]\<newline>\<newline>''))], True)"
    using assms(2) by (simp add: completion_try_def data_line_content)
  then have "completion_lines P c (ascii ''data: '' @ body @ 10 # rest) =
           (rest, [(SentinelFrame, TextEncoder_encode (ascii ''data: [DONE]\<newline>\<newline>''))])"
    by (simp add: completion_lines_Some [OF first_line(1) [OF assms(1)]] first_line(2,3) [OF assms(1)])
  then show ?thesis
    using assms(3)
    by (simp add: completion_flush_def completion_session_def chat_flush_def chat_final_frames_def
        case_prod_beta)
qed

theorem completion_finalization_asymmetry_witness:
  "10 \<notin> set (ascii ''[DONE]'') \<and> trim (ascii ''[DONE]'' @ [10]) = ascii ''[DONE]''
   \<and> \<not> isFinished chat_init
   \<and> completion_lines sample_platform sample_config (ascii ''data: '' @ ascii ''[DONE]'' @ 10 # []) =
       ([], [(SentinelFrame, TextEncoder_encode (ascii ''data: [DONE]\<newline>\<newline>''))])
   \<and> chat_flush sample_platform sample_config chat_init =
       (chat_init, [(TerminatingFrame, TextEncoder_encode (chat_finalChunk sample_platform sample_config)),
                (SentinelFrame, TextEncoder_encode (ascii ''data: [DONE]\<newline>\<newline>''))])"
proof -
  have h1: "10 \<notin> set (ascii ''[DONE]'')" by (simp add: ascii_def)
  have h2: "trim (ascii ''[DONE]'' @ [10]) = ascii ''[DONE]''" by (simp add: eval_defs)
  have h3: "\<not> isFinished chat_init" by (simp add: chat_init_def)
  from completion_finalization_asymmetry [OF h1 h2 h3, of sample_platform sample_config "[]"] h1 h2 h3
  show ?thesis by blast
qed

text \<open>
  C8, scenario B. With the preamble closed and the buffer empty, the chunk
  \<^verbatim>\<open>data: {"response":"42"}\<close> and a newline makes the completion transformer enqueue one
  frame: the event prefix, the text of the object with the session's \<^verbatim>\<open>id\<close>, \<^verbatim>\<open>created\<close>
  and \<^verbatim>\<open>model\<close>, \<^verbatim>\<open>object\<close> \<^verbatim>\<open>text_completion\<close> and one choice with \<^verbatim>\<open>text\<close> \<^verbatim>\<open>"42"\<close>, \<^verbatim>\<open>index\<close> 0,
  \<^verbatim>\<open>logprobs\<close> and \<^verbatim>\<open>finish_reason\<close> null, and a blank line. The hypothesis says what
  \<^verbatim>\<open>JSON.parse\<close> returns for the content of the line.
\<close>

theorem completion_frame_shape:
  assumes "JSON_parse P (ascii ''{\"response\":\"42\"}\<newline>'') =
             Inr (JObject [(ascii ''response'', JString (ascii ''42''))])"
  shows "completion_transform P c \<lparr>buffer = [], pastThinkTag = True\<rparr>
           ''data: {\"response\":\"42\"}\<newline>'' =
         (\<lparr>buffer = [], pastThinkTag = True\<rparr>,
          [(DataFrame, TextEncoder_encode
             (ascii ''data: '' @
              JSON_stringify P (JObject
                [(ascii ''id'', JString (uuid c)),
                 (ascii ''created'', JNumber (created c)),
                 (ascii ''object'', JString (ascii ''text_completion'')),
                 (ascii ''model'', JString (model c)),
                 (ascii ''choices'', JArray [JObject
                    [(ascii ''text'', JString (ascii ''42'')),
                     (ascii ''index'', JNumber (Finite 0)),
                     (ascii ''logprobs'', JNull),
                     (ascii ''finish_reason'', JNull)]])]) @
              ascii ''\<newline>\<newline>''))])"
  using assms
  by (simp add: completion_transform_def completion_transform_text_def completion_while_def
      completion_lines.simps completion_try_def completion_newChunk_def eval_defs)

theorem completion_frame_shape_witness:
  "JSON_parse sample_platform (ascii ''{\"response\":\"42\"}\<newline>'') =
             Inr (JObject [(ascii ''response'', JString (ascii ''42''))])
   \<and> wire (snd (completion_transform sample_platform sample_config \<lparr>buffer = [], pastThinkTag = True\<rparr>
           ''data: {\"response\":\"42\"}\<newline>'')) =
       ''data: {\"id\":\"req-1\",\"created\":1700000000,\"object\":\"text_completion\",\"model\":\"llama\",\"choices\":[{\"text\":\"42\",\"index\":0,\"logprobs\":null,\"finish_reason\":null}]}\<newline>\<newline>''"
proof -
  have h: "JSON_parse sample_platform (ascii ''{\"response\":\"42\"}\<newline>'') =
             Inr (JObject [(ascii ''response'', JString (ascii ''42''))])"
    by (simp add: sample_platform_def sample_parse_def)
  have "wire (snd (completion_transform sample_platform sample_config \<lparr>buffer = [], pastThinkTag = True\<rparr>
           ''data: {\"response\":\"42\"}\<newline>'')) =
       ''data: {\"id\":\"req-1\",\"created\":1700000000,\"object\":\"text_completion\",\"model\":\"llama\",\"choices\":[{\"text\":\"42\",\"index\":0,\"logprobs\":null,\"finish_reason\":null}]}\<newline>\<newline>''"
    unfolding completion_frame_shape [OF h]
    by (simp add: wire_def sample_platform_def sample_config_def ascii_def encode_defs)
  with h show ?thesis by blast
qed

lemma past_empty_chat_text:
  "chat_transform_text P c \<lparr>buffer = [], pastThinkTag = True, isFinished = False\<rparr> text =
     (case chat_lines P c text of
        (buf, finished, out) \<Rightarrow> (\<lparr>buffer = buf, pastThinkTag = True, isFinished = finished\<rparr>, out))"
  by (simp add: chat_transform_text_def chat_while_def split: prod.splits)

lemma past_empty_completion_text:
  "completion_transform_text P c \<lparr>buffer = [], pastThinkTag = True\<rparr> text =
     (case completion_lines P c text of (buf, out) \<Rightarrow> (\<lparr>buffer = buf, pastThinkTag = True\<rparr>, out))"
  by (simp add: completion_transform_text_def completion_while_def split: prod.splits)

lemma lines_empty:
  "chat_lines P c [] = ([], False, [])" "completion_lines P c [] = ([], [])"
  by (simp_all add: chat_lines.simps [of P c "[]"] completion_lines.simps [of P c "[]"] ascii_def)

text \<open>
  C6, parse-error resilience. A complete line with the event prefix whose content is not
  the sentinel and on which \<^verbatim>\<open>JSON.parse\<close> throws: the exception is caught, the line
  enqueues nothing and does not end the loop, and the rest of the buffer is processed as
  if the line had not been there, in both transformers; alone in a chunk, the line leaves
  the state as it was for the chunks to come. A valid line behind it is framed: in the
  completion transformer with its \<^verbatim>\<open>response\<close>, in the chat transformer with the content
  chosen from its truthy \<^verbatim>\<open>response\<close>, followed by the frames of the rest of the buffer.
  The functions return a state and frames, never an exception.
\<close>

theorem parse_error_resilience:
  assumes "10 \<notin> set body"
    and "trim (body @ [10]) \<noteq> ascii ''[DONE]''"
    and "JSON_parse P (body @ [10]) = Inl err"
  shows "chat_try P c (ascii ''data: '' @ body @ [10]) = Inl err
       \<and> chat_lines P c (ascii ''data: '' @ body @ 10 # rest) = chat_lines P c rest
       \<and> completion_try P c (ascii ''data: '' @ body @ [10]) = Inl err
       \<and> completion_lines P c (ascii ''data: '' @ body @ 10 # rest) = completion_lines P c rest
       \<and> chat_transform_text P c \<lparr>buffer = [], pastThinkTag = True, isFinished = False\<rparr>
            (ascii ''data: '' @ body @ [10]) =
           (\<lparr>buffer = [], pastThinkTag = True, isFinished = False\<rparr>, [])
       \<and> completion_transform_text P c \<lparr>buffer = [], pastThinkTag = True\<rparr>
            (ascii ''data: '' @ body @ [10]) =
           (\<lparr>buffer = [], pastThinkTag = True\<rparr>, [])
       \<and> (10 \<notin> set good \<and> trim (good @ [10]) \<noteq> ascii ''[DONE]'' \<and>
          JSON_parse P (good @ [10]) = Inr data \<and> get data (ascii ''response'') = Inr response \<longrightarrow>
            completion_lines P c
              (ascii ''data: '' @ body @ 10 # ascii ''data: '' @ good @ 10 # rest) =
              (case completion_lines P c rest of
                 (buf, out) \<Rightarrow>
                   (buf, (DataFrame, TextEncoder_encode (completion_newChunk P c response)) # out))
            \<and> (truthy response \<longrightarrow>
                 chat_lines P c
                   (ascii ''data: '' @ body @ 10 # ascii ''data: '' @ good @ 10 # rest) =
                   (case chat_lines P c rest of
                      (buf, finished, out) \<Rightarrow>
                        (buf, finished,
                         (DataFrame,
                          TextEncoder_encode (chat_newChunk P c (actualContent P response))) # out))))"
proof -
  have 1: "chat_try P c (ascii ''data: '' @ body @ [10]) = Inl err"
    using assms(2,3) by (simp add: chat_try_def data_line_content)
  have 2: "completion_try P c (ascii ''data: '' @ body @ [10]) = Inl err"
    using assms(2,3) by (simp add: completion_try_def data_line_content)
  have 3: "chat_lines P c (ascii ''data: '' @ body @ 10 # rest) = chat_lines P c rest" for rest
    by (simp add: chat_lines_Some [OF first_line(1) [OF assms(1)]] first_line(2,3) [OF assms(1)] 1)
  have 4: "completion_lines P c (ascii ''data: '' @ body @ 10 # rest) = completion_lines P c rest"
    for rest
    by (simp add: completion_lines_Some [OF first_line(1) [OF assms(1)]]
          first_line(2,3) [OF assms(1)] 2)
  have 5: "chat_transform_text P c \<lparr>buffer = [], pastThinkTag = True, isFinished = False\<rparr>
            (ascii ''data: '' @ body @ [10]) =
           (\<lparr>buffer = [], pastThinkTag = True, isFinished = False\<rparr>, [])"
    using 3 [of "[]"] by (simp add: past_empty_chat_text lines_empty)
  have 6: "completion_transform_text P c \<lparr>buffer = [], pastThinkTag = True\<rparr>
            (ascii ''data: '' @ body @ [10]) =
           (\<lparr>buffer = [], pastThinkTag = True\<rparr>, [])"
    using 4 [of "[]"] by (simp add: past_empty_completion_text lines_empty)
  have 7: "completion_lines P c
              (ascii ''data: '' @ body @ 10 # ascii ''data: '' @ good @ 10 # rest) =
              (case completion_lines P c rest of
                 (buf, out) \<Rightarrow>
                   (buf, (DataFrame, TextEncoder_encode (completion_newChunk P c response)) # out))"
    if g: "10 \<notin> set good" "trim (good @ [10]) \<noteq> ascii ''[DONE]''"
      "JSON_parse P (good @ [10]) = Inr data" "get data (ascii ''response'') = Inr response"
  proof -
    have t: "completion_try P c (ascii ''data: '' @ good @ [10]) =
       Inr ([(DataFrame, TextEncoder_encode (completion_newChunk P c response))], False)"
      using g(2,3,4) by (simp add: completion_try_def data_line_content)
    show ?thesis
      unfolding 4 [of "ascii ''data: '' @ good @ 10 # rest"]
      by (simp add: completion_lines_Some [OF first_line(1) [OF g(1)]] first_line(2,3) [OF g(1)] t
          split: prod.splits)
  qed
  have 8: "chat_lines P c
                   (ascii ''data: '' @ body @ 10 # ascii ''data: '' @ good @ 10 # rest) =
                   (case chat_lines P c rest of
                      (buf, finished, out) \<Rightarrow>
                        (buf, finished,
                         (DataFrame,
                          TextEncoder_encode (chat_newChunk P c (actualContent P response))) # out))"
    if g: "10 \<notin> set good" "trim (good @ [10]) \<noteq> ascii ''[DONE]''"
      "JSON_parse P (good @ [10]) = Inr data" "get data (ascii ''response'') = Inr response"
      "truthy response"
  proof -
    have t: "chat_try P c (ascii ''data: '' @ good @ [10]) =
       Inr ([(DataFrame, TextEncoder_encode (chat_newChunk P c (actualContent P response)))], False)"
      using g(2,3,4,5) by (simp add: chat_try_def data_line_content)
    show ?thesis
      unfolding 3 [of "ascii ''data: '' @ good @ 10 # rest"]
      by (simp add: chat_lines_Some [OF first_line(1) [OF g(1)]] first_line(2,3) [OF g(1)] t
          split: prod.splits)
  qed
  from 1 2 3 [of rest] 4 [of rest] 5 6 7 8 show ?thesis by blast
qed

theorem parse_error_resilience_witness:
  "10 \<notin> set (ascii ''{\"response\":'')
   \<and> trim (ascii ''{\"response\":'' @ [10]) \<noteq> ascii ''[DONE]''
   \<and> JSON_parse sample_platform (ascii ''{\"response\":'' @ [10]) = Inl SyntaxError
   \<and> 10 \<notin> set (ascii ''{\"response\":\"Hi\"}'')
   \<and> trim (ascii ''{\"response\":\"Hi\"}'' @ [10]) \<noteq> ascii ''[DONE]''
   \<and> JSON_parse sample_platform (ascii ''{\"response\":\"Hi\"}'' @ [10]) =
       Inr (JObject [(ascii ''response'', JString (ascii ''Hi''))])
   \<and> get (JObject [(ascii ''response'', JString (ascii ''Hi''))]) (ascii ''response'') =
       Inr (JString (ascii ''Hi''))
   \<and> truthy (JString (ascii ''Hi''))
   \<and> completion_lines sample_platform sample_config
        (ascii ''data: '' @ ascii ''{\"response\":'' @ 10 #
         ascii ''data: '' @ ascii ''{\"response\":\"Hi\"}'' @ 10 # []) =
       ([], [(DataFrame, TextEncoder_encode
                (completion_newChunk sample_platform sample_config (JString (ascii ''Hi''))))])
   \<and> chat_lines sample_platform sample_config
        (ascii ''data: '' @ ascii ''{\"response\":'' @ 10 #
         ascii ''data: '' @ ascii ''{\"response\":\"Hi\"}'' @ 10 # []) =
       ([], False, [(DataFrame, TextEncoder_encode
                (chat_newChunk sample_platform sample_config (JString (ascii ''Hi''))))])
   \<and> map fst (completion_session sample_platform sample_config
        [''</think>data: {\"response\":\<newline>'', ''data: {\"response\":\"Hi\"}\<newline>'']) = [DataFrame]
   \<and> map fst (chat_session sample_platform sample_config
        [''</think>data: {\"response\":\<newline>'', ''data: {\"response\":\"Hi\"}\<newline>'']) =
       [DataFrame, TerminatingFrame, SentinelFrame]"
proof -
  have h1: "10 \<notin> set (ascii ''{\"response\":'')" by (simp add: ascii_def)
  have h2: "trim (ascii ''{\"response\":'' @ [10]) \<noteq> ascii ''[DONE]''" by (simp add: eval_defs)
  have h3: "JSON_parse sample_platform (ascii ''{\"response\":'' @ [10]) = Inl SyntaxError"
    by (simp add: sample_platform_def sample_parse_def ascii_def)
  have g1: "10 \<notin> set (ascii ''{\"response\":\"Hi\"}'')" by (simp add: ascii_def)
  have g2: "trim (ascii ''{\"response\":\"Hi\"}'' @ [10]) \<noteq> ascii ''[DONE]''"
    by (simp add: eval_defs)
  have g3: "JSON_parse sample_platform (ascii ''{\"response\":\"Hi\"}'' @ [10]) =
       Inr (JObject [(ascii ''response'', JString (ascii ''Hi''))])"
    by (simp add: sample_platform_def sample_parse_def ascii_def)
  have g4: "get (JObject [(ascii ''response'', JString (ascii ''Hi''))]) (ascii ''response'') =
       Inr (JString (ascii ''Hi''))" by simp
  have g5: "truthy (JString (ascii ''Hi''))" by (simp add: ascii_def)
  have a: "actualContent sample_platform (JString (ascii ''Hi'')) = JString (ascii ''Hi'')"
    by (simp add: actualContent_def)
  have e1: "map fst (completion_session sample_platform sample_config
        [''</think>data: {\"response\":\<newline>'', ''data: {\"response\":\"Hi\"}\<newline>'']) = [DataFrame]"
    by (simp add: run_defs eval_defs sample_defs)
  have e2: "map fst (chat_session sample_platform sample_config
        [''</think>data: {\"response\":\<newline>'', ''data: {\"response\":\"Hi\"}\<newline>'']) =
       [DataFrame, TerminatingFrame, SentinelFrame]"
    by (simp add: run_defs eval_defs sample_defs)
  from parse_error_resilience [OF h1 h2 h3, of sample_config "[]"
         "ascii ''{\"response\":\"Hi\"}''" "JObject [(ascii ''response'', JString (ascii ''Hi''))]"
         "JString (ascii ''Hi'')"] g1 g2 g3 g4 g5
  have "completion_lines sample_platform sample_config
        (ascii ''data: '' @ ascii ''{\"response\":'' @ 10 #
         ascii ''data: '' @ ascii ''{\"response\":\"Hi\"}'' @ 10 # []) =
       ([], [(DataFrame, TextEncoder_encode
                (completion_newChunk sample_platform sample_config (JString (ascii ''Hi''))))])"
    and "chat_lines sample_platform sample_config
        (ascii ''data: '' @ ascii ''{\"response\":'' @ 10 #
         ascii ''data: '' @ ascii ''{\"response\":\"Hi\"}'' @ 10 # []) =
       ([], False, [(DataFrame, TextEncoder_encode
                (chat_newChunk sample_platform sample_config (JString (ascii ''Hi''))))])"
    by (simp_all add: lines_empty a)
  with h1 h2 h3 g1 g2 g3 g4 g5 e1 e2 show ?thesis by blast
qed

text \<open>
  C7, the fallback chain of the chat transformer. For a parsed line whose \<^verbatim>\<open>response\<close> is
  truthy, one frame is enqueued and its delta content is: the string itself when
  \<^verbatim>\<open>response\<close> is a string; for an object its \<^verbatim>\<open>text\<close> property when that is truthy, else
  its \<^verbatim>\<open>content\<close> property when that is truthy, else the text \<^verbatim>\<open>JSON.stringify\<close> gives for the
  whole object; for any other value that text as well.
\<close>

theorem chat_fragment_fallback_chain:
  assumes "startsWith line (ascii ''data: '')"
    and "trim (drop (length (ascii ''data: '')) line) \<noteq> ascii ''[DONE]''"
    and "JSON_parse P (drop (length (ascii ''data: '')) line) = Inr data"
    and "get data (ascii ''response'') = Inr response"
    and "truthy response"
  shows "chat_try P c line =
     Inr ([(DataFrame, TextEncoder_encode (chat_newChunk P c
            (case response of
               JString s \<Rightarrow> JString s
             | JObject kvs \<Rightarrow>
                 (case map_of kvs (ascii ''text'') of
                    Some t \<Rightarrow>
                      if truthy t then t
                      else (case map_of kvs (ascii ''content'') of
                              Some v \<Rightarrow> if truthy v then v
                                        else JString (JSON_stringify P (JObject kvs))
                            | None \<Rightarrow> JString (JSON_stringify P (JObject kvs)))
                  | None \<Rightarrow>
                      (case map_of kvs (ascii ''content'') of
                         Some v \<Rightarrow> if truthy v then v
                                   else JString (JSON_stringify P (JObject kvs))
                       | None \<Rightarrow> JString (JSON_stringify P (JObject kvs))))
             | other \<Rightarrow> JString (JSON_stringify P other))))], False)"
  using assms
  by (cases response)
     (simp_all add: chat_try_def actualContent_def js_or_def get_opt_def split: option.splits)

theorem chat_fragment_fallback_chain_witness:
  "startsWith (ascii ''data: {\"response\":{\"text\":\"\",\"content\":\"Hi\"}}\<newline>'') (ascii ''data: '')
   \<and> trim (drop (length (ascii ''data: ''))
         (ascii ''data: {\"response\":{\"text\":\"\",\"content\":\"Hi\"}}\<newline>'')) \<noteq> ascii ''[DONE]''
   \<and> JSON_parse sample_platform (drop (length (ascii ''data: ''))
         (ascii ''data: {\"response\":{\"text\":\"\",\"content\":\"Hi\"}}\<newline>'')) =
       Inr (JObject [(ascii ''response'',
               JObject [(ascii ''text'', JString []), (ascii ''content'', JString (ascii ''Hi''))])])
   \<and> chat_try sample_platform sample_config
         (ascii ''data: {\"response\":{\"text\":\"\",\"content\":\"Hi\"}}\<newline>'') =
       Inr ([(DataFrame, TextEncoder_encode
               (chat_newChunk sample_platform sample_config (JString (ascii ''Hi''))))], False)"
proof -
  let ?line = "ascii ''data: {\"response\":{\"text\":\"\",\"content\":\"Hi\"}}\<newline>''"
  let ?r = "JObject [(ascii ''text'', JString []), (ascii ''content'', JString (ascii ''Hi''))]"
  have h1: "startsWith ?line (ascii ''data: '')" by (simp add: eval_defs)
  have h2: "trim (drop (length (ascii ''data: '')) ?line) \<noteq> ascii ''[DONE]''"
    by (simp add: eval_defs)
  have h3: "JSON_parse sample_platform (drop (length (ascii ''data: '')) ?line) =
       Inr (JObject [(ascii ''response'', ?r)])"
    by (simp add: sample_platform_def sample_parse_def ascii_def)
  have h4: "get (JObject [(ascii ''response'', ?r)]) (ascii ''response'') = Inr ?r" by simp
  have h5: "truthy ?r" by simp
  from chat_fragment_fallback_chain [OF h1 h2 h3 h4 h5, of sample_config]
  have "chat_try sample_platform sample_config ?line =
       Inr ([(DataFrame, TextEncoder_encode
               (chat_newChunk sample_platform sample_config (JString (ascii ''Hi''))))], False)"
    by (simp add: ascii_def)
  with h1 h2 h3 show ?thesis by blast
qed

text \<open>
  C10, empty fragments. In chat mode a parsed line whose \<^verbatim>\<open>response\<close> is absent, null, the
  empty string or any other falsy value (also when the parsed value is \<^verbatim>\<open>null\<close> and reading
  the property throws) enqueues no frame, and the loop goes on with the rest of the buffer.
\<close>

theorem chat_falsy_fragment_dropped:
  assumes "10 \<notin> set body"
    and "trim (body @ [10]) \<noteq> ascii ''[DONE]''"
    and "JSON_parse P (body @ [10]) = Inr data"
    and "\<not> truthy (get_opt data (ascii ''response''))"
  shows "chat_lines P c (ascii ''data: '' @ body @ 10 # rest) = chat_lines P c rest"
proof -
  have "chat_try P c (ascii ''data: '' @ body @ [10]) = Inr ([], False)
        \<or> chat_try P c (ascii ''data: '' @ body @ [10]) = Inl TypeError"
    using assms(2,3,4)
    by (cases data) (simp_all add: chat_try_def data_line_content get_opt_def)
  then show ?thesis
    by (auto simp: chat_lines_Some [OF first_line(1) [OF assms(1)]] first_line(2,3) [OF assms(1)]
        split: prod.splits)
qed

theorem chat_falsy_fragment_dropped_witness:
  "10 \<notin> set (ascii ''{\"response\":\"\"}'')
   \<and> trim (ascii ''{\"response\":\"\"}'' @ [10]) \<noteq> ascii ''[DONE]''
   \<and> JSON_parse sample_platform (ascii ''{\"response\":\"\"}'' @ [10]) =
       Inr (JObject [(ascii ''response'', JString [])])
   \<and> \<not> truthy (get_opt (JObject [(ascii ''response'', JString [])]) (ascii ''response''))
   \<and> chat_lines sample_platform sample_config (ascii ''data: '' @ ascii ''{\"response\":\"\"}'' @ 10 # []) =
       ([], False, [])"
proof -
  have h1: "10 \<notin> set (ascii ''{\"response\":\"\"}'')" by (simp add: ascii_def)
  have h2: "trim (ascii ''{\"response\":\"\"}'' @ [10]) \<noteq> ascii ''[DONE]''"
    by (simp add: eval_defs)
  have h3: "JSON_parse sample_platform (ascii ''{\"response\":\"\"}'' @ [10]) =
       Inr (JObject [(ascii ''response'', JString [])])"
    by (simp add: sample_platform_def sample_parse_def ascii_def)
  have h4: "\<not> truthy (get_opt (JObject [(ascii ''response'', JString [])]) (ascii ''response''))"
    by (simp add: get_opt_def)
  have e: "chat_lines sample_platform sample_config [] = ([], False, [])"
    by (simp add: chat_lines.simps ascii_def)
  from chat_falsy_fragment_dropped [OF h1 h2 h3 h4, of sample_config "[]"] e h1 h2 h3 h4
  show ?thesis by simp
qed

section \<open>The preamble\<close>

lemma chat_run_text_append:
  "chat_run_text P c s (xs @ ys) =
     (case chat_run_text P c s xs of
        (s1, out1) \<Rightarrow> (case chat_run_text P c s1 ys of (s2, out2) \<Rightarrow> (s2, out1 @ out2)))"
  by (induction xs arbitrary: s) (simp_all split: prod.splits)

lemma completion_run_text_append:
  "completion_run_text P c s (xs @ ys) =
     (case completion_run_text P c s xs of
        (s1, out1) \<Rightarrow> (case completion_run_text P c s1 ys of (s2, out2) \<Rightarrow> (s2, out1 @ out2)))"
  by (induction xs arbitrary: s) (simp_all split: prod.splits)

lemma chat_run_text_no_marker:
  "\<not> isFinished s \<Longrightarrow> \<not> pastThinkTag s \<Longrightarrow>
   indexOf (buffer s @ concat ts) thinkTagEnd = None \<Longrightarrow>
   chat_run_text P c s ts = (s\<lparr>buffer := buffer s @ concat ts\<rparr>, [])"
proof (induction ts arbitrary: s)
  case Nil
  then show ?case by simp
next
  case (Cons t ts)
  from Cons.prems(3) have "indexOf ((buffer s @ t) @ concat ts) thinkTagEnd = None" by simp
  then have n: "indexOf (buffer s @ t) thinkTagEnd = None" by (rule indexOf_append_None)
  with Cons.prems have st: "chat_transform_text P c s t = (s\<lparr>buffer := buffer s @ t\<rparr>, [])"
    by (simp add: chat_transform_text_def)
  from Cons.IH [of "s\<lparr>buffer := buffer s @ t\<rparr>"] Cons.prems st show ?case by simp
qed

lemma completion_run_text_no_marker:
  "\<not> pastThinkTag s \<Longrightarrow>
   indexOf (buffer s @ concat ts) thinkTagEnd = None \<Longrightarrow>
   completion_run_text P c s ts = (s\<lparr>buffer := buffer s @ concat ts\<rparr>, [])"
proof (induction ts arbitrary: s)
  case Nil
  then show ?case by simp
next
  case (Cons t ts)
  from Cons.prems(2) have "indexOf ((buffer s @ t) @ concat ts) thinkTagEnd = None" by simp
  then have n: "indexOf (buffer s @ t) thinkTagEnd = None" by (rule indexOf_append_None)
  with Cons.prems have st: "completion_transform_text P c s t = (s\<lparr>buffer := buffer s @ t\<rparr>, [])"
    by (simp add: completion_transform_text_def)
  from Cons.IH [of "s\<lparr>buffer := buffer s @ t\<rparr>"] Cons.prems st show ?case by simp
qed

lemma marker_found:
  assumes "indexOf (pre @ thinkTagEnd) thinkTagEnd = Some (length pre)"
  shows "indexOf (pre @ thinkTagEnd @ rest) thinkTagEnd = Some (length pre)"
    and "drop (length pre + length thinkTagEnd) (pre @ thinkTagEnd @ rest) = rest"
  using indexOf_append [OF assms, of rest] by simp_all

text \<open>
  C4, preamble exclusion. While the decoded text received so far does not contain the
  closing marker nothing is enqueued by \<^verbatim>\<open>transform\<close>: if the marker never comes, a chat
  session enqueues the terminating and sentinel frames of its flush only and a completion
  session nothing. When the marker is completed by a chunk, at its first occurrence, the
  run is the run of a transformer that starts behind the marker and is fed the text
  strictly after it: the text before the marker and the marker itself have no part in
  the frames.
\<close>

theorem preamble_exclusion:
  "(indexOf (concat (map TextDecoder_decode chunks)) thinkTagEnd = None \<longrightarrow>
      snd (chat_run P c chat_init chunks) = [] \<and>
      chat_session P c chunks = chat_final_frames P c \<and>
      completion_session P c chunks = [])
   \<and> (indexOf (concat (map TextDecoder_decode before)) thinkTagEnd = None \<and>
      concat (map TextDecoder_decode before) @ TextDecoder_decode chunk = pre @ thinkTagEnd @ rest \<and>
      indexOf (pre @ thinkTagEnd) thinkTagEnd = Some (length pre) \<longrightarrow>
      chat_run P c chat_init (before @ chunk # after) =
        chat_run_text P c (chat_init\<lparr>pastThinkTag := True\<rparr>) (rest # map TextDecoder_decode after) \<and>
      completion_run P c completion_init (before @ chunk # after) =
        completion_run_text P c (completion_init\<lparr>pastThinkTag := True\<rparr>)
          (rest # map TextDecoder_decode after))"
proof (intro conjI impI)
  assume n: "indexOf (concat (map TextDecoder_decode chunks)) thinkTagEnd = None"
  have r: "chat_run P c chat_init chunks =
        (chat_init\<lparr>buffer := concat (map TextDecoder_decode chunks)\<rparr>, [])"
    using chat_run_text_no_marker [of chat_init "map TextDecoder_decode chunks" P c] n
    by (simp add: chat_run_def chat_init_def)
  then show "snd (chat_run P c chat_init chunks) = []" by simp
  from r show "chat_session P c chunks = chat_final_frames P c"
    by (simp add: chat_session_def chat_flush_def chat_init_def)
  show "completion_session P c chunks = []"
    using completion_run_text_no_marker [of completion_init "map TextDecoder_decode chunks" P c] n
    by (simp add: completion_session_def completion_run_def completion_init_def completion_flush_def)
next
  assume h: "indexOf (concat (map TextDecoder_decode before)) thinkTagEnd = None \<and>
      concat (map TextDecoder_decode before) @ TextDecoder_decode chunk = pre @ thinkTagEnd @ rest \<and>
      indexOf (pre @ thinkTagEnd) thinkTagEnd = Some (length pre)"
  then have n: "indexOf (concat (map TextDecoder_decode before)) thinkTagEnd = None"
    and e: "concat (map TextDecoder_decode before) @ TextDecoder_decode chunk = pre @ thinkTagEnd @ rest"
    and f: "indexOf (pre @ thinkTagEnd) thinkTagEnd = Some (length pre)" by simp_all
  note m = marker_found [OF f, of rest]
  have r: "chat_run_text P c chat_init (map TextDecoder_decode before) =
        (chat_init\<lparr>buffer := concat (map TextDecoder_decode before)\<rparr>, [])"
    using chat_run_text_no_marker [of chat_init "map TextDecoder_decode before" P c] n
    by (simp add: chat_init_def)
  show "chat_run P c chat_init (before @ chunk # after) =
        chat_run_text P c (chat_init\<lparr>pastThinkTag := True\<rparr>) (rest # map TextDecoder_decode after)"
  proof -
    have t: "chat_transform_text P c
               (chat_init\<lparr>buffer := concat (map TextDecoder_decode before)\<rparr>)
               (TextDecoder_decode chunk) =
             chat_while P c (chat_init\<lparr>buffer := rest, pastThinkTag := True\<rparr>)"
      using e m by (simp add: chat_transform_text_def chat_init_def del: drop_append)
    have t': "chat_transform_text P c (chat_init\<lparr>pastThinkTag := True\<rparr>) rest =
             chat_while P c (chat_init\<lparr>buffer := rest, pastThinkTag := True\<rparr>)"
      by (simp add: chat_transform_text_def chat_init_def)
    show ?thesis by (simp add: chat_run_def chat_run_text_append r t t')
  qed
  have r': "completion_run_text P c completion_init (map TextDecoder_decode before) =
        (completion_init\<lparr>buffer := concat (map TextDecoder_decode before)\<rparr>, [])"
    using completion_run_text_no_marker [of completion_init "map TextDecoder_decode before" P c] n
    by (simp add: completion_init_def)
  show "completion_run P c completion_init (before @ chunk # after) =
        completion_run_text P c (completion_init\<lparr>pastThinkTag := True\<rparr>)
          (rest # map TextDecoder_decode after)"
  proof -
    have t: "completion_transform_text P c
               (completion_init\<lparr>buffer := concat (map TextDecoder_decode before)\<rparr>)
               (TextDecoder_decode chunk) =
             completion_while P c (completion_init\<lparr>buffer := rest, pastThinkTag := True\<rparr>)"
      using e m by (simp add: completion_transform_text_def completion_init_def del: drop_append)
    have t': "completion_transform_text P c (completion_init\<lparr>pastThinkTag := True\<rparr>) rest =
             completion_while P c (completion_init\<lparr>buffer := rest, pastThinkTag := True\<rparr>)"
      by (simp add: completion_transform_text_def completion_init_def)
    show ?thesis by (simp add: completion_run_def completion_run_text_append r' t t')
  qed
qed


theorem preamble_exclusion_witness:
  "indexOf (concat (map TextDecoder_decode [''reasoning'', ''...''])) thinkTagEnd = None
   \<and> chat_session sample_platform sample_config [''reasoning'', ''...''] =
       chat_final_frames sample_platform sample_config
   \<and> completion_session sample_platform sample_config [''reasoning'', ''...''] = []
   \<and> indexOf (concat (map TextDecoder_decode [''reasoning...</thi''])) thinkTagEnd = None
   \<and> concat (map TextDecoder_decode [''reasoning...</thi'']) @
       TextDecoder_decode ''nk>data: {\"response\":\"Hi\"}\<newline>data: [DONE]\<newline>'' =
       ascii ''reasoning...'' @ thinkTagEnd @ ascii ''data: {\"response\":\"Hi\"}\<newline>data: [DONE]\<newline>''
   \<and> indexOf (ascii ''reasoning...'' @ thinkTagEnd) thinkTagEnd = Some (length (ascii ''reasoning...''))
   \<and> chat_run sample_platform sample_config chat_init
         ([''reasoning...</thi''] @ ''nk>data: {\"response\":\"Hi\"}\<newline>data: [DONE]\<newline>'' # []) =
       chat_run_text sample_platform sample_config (chat_init\<lparr>pastThinkTag := True\<rparr>)
         (ascii ''data: {\"response\":\"Hi\"}\<newline>data: [DONE]\<newline>'' # map TextDecoder_decode [])
   \<and> completion_run sample_platform sample_config completion_init
         ([''reasoning...</thi''] @ ''nk>data: {\"response\":\"Hi\"}\<newline>data: [DONE]\<newline>'' # []) =
       completion_run_text sample_platform sample_config (completion_init\<lparr>pastThinkTag := True\<rparr>)
         (ascii ''data: {\"response\":\"Hi\"}\<newline>data: [DONE]\<newline>'' # map TextDecoder_decode [])"
proof -
  have h1: "indexOf (concat (map TextDecoder_decode [''reasoning'', ''...''])) thinkTagEnd = None"
    by (simp add: eval_defs)
  have h2: "indexOf (concat (map TextDecoder_decode [''reasoning...</thi''])) thinkTagEnd = None"
    by (simp add: eval_defs)
  have h3: "concat (map TextDecoder_decode [''reasoning...</thi'']) @
       TextDecoder_decode ''nk>data: {\"response\":\"Hi\"}\<newline>data: [DONE]\<newline>'' =
       ascii ''reasoning...'' @ thinkTagEnd @ ascii ''data: {\"response\":\"Hi\"}\<newline>data: [DONE]\<newline>''"
    by (simp add: eval_defs)
  have h4: "indexOf (ascii ''reasoning...'' @ thinkTagEnd) thinkTagEnd =
              Some (length (ascii ''reasoning...''))"
    by (simp add: eval_defs)
  from preamble_exclusion
         [of "[''reasoning'', ''...'']" sample_platform sample_config "[''reasoning...</thi'']"
             "''nk>data: {\"response\":\"Hi\"}\<newline>data: [DONE]\<newline>''" "ascii ''reasoning...''"
             "ascii ''data: {\"response\":\"Hi\"}\<newline>data: [DONE]\<newline>''" "[]"]
       h1 h2 h3 h4
  show ?thesis by blast
qed

end
